theory Spec2Isabelle
  imports Main
begin

section \<open>Python values and exceptions\<close>

text \<open>
  The two exceptions the game core can raise: \<open>ValueError\<close> from the value-object
  constructors (with its message) and \<open>IndexError\<close> from list subscripts.
  A computation that may raise returns \<open>py_error + 'a\<close>, \<open>Inl\<close> being the raise.
\<close>

datatype py_error = ValueError string | IndexError

definition bind_result :: "py_error + 'a \<Rightarrow> ('a \<Rightarrow> py_error + 'b) \<Rightarrow> py_error + 'b" where
  "bind_result m f = (case m of Inl e \<Rightarrow> Inl e | Inr v \<Rightarrow> f v)"

text \<open>
  Position of subscript \<open>i\<close> in a list of length \<open>len\<close>: Python counts a negative
  subscript from the end, and anything outside \<open>-len \<le> i < len\<close> raises.
\<close>

definition py_position :: "nat \<Rightarrow> int \<Rightarrow> nat option" where
  "py_position len i =
     (if 0 \<le> i \<and> i < int len then Some (nat i)
      else if i < 0 \<and> - int len \<le> i then Some (nat (int len + i))
      else None)"

definition py_getitem :: "'a list \<Rightarrow> int \<Rightarrow> py_error + 'a" where
  "py_getitem xs i =
     (case py_position (length xs) i of None \<Rightarrow> Inl IndexError | Some k \<Rightarrow> Inr (xs ! k))"

definition py_setitem :: "'a list \<Rightarrow> int \<Rightarrow> 'a \<Rightarrow> py_error + 'a list" where
  "py_setitem xs i v =
     (case py_position (length xs) i of None \<Rightarrow> Inl IndexError | Some k \<Rightarrow> Inr (xs[k := v]))"

text \<open>\<open>range(n)\<close>: the integers \<open>0, 1, ..., n - 1\<close>, empty when \<open>n \<le> 0\<close>.\<close>

definition py_range :: "int \<Rightarrow> int list" where
  "py_range n = map int [0..<nat n]"

section \<open>models/player.py, models/game_status.py\<close>

datatype Player = Player_NONE | Player_X | Player_O

datatype GameStatus = IN_PROGRESS | X_WINS | O_WINS | TIE

text \<open>\<open>Player.name\<close>, the name of the enum member.\<close>

fun Player_name :: "Player \<Rightarrow> string" where
  "Player_name Player_NONE = ''NONE''"
| "Player_name Player_X = ''X''"
| "Player_name Player_O = ''O''"

section \<open>models/value_objects.py\<close>

record GridCoordinate =
  row :: int
  col :: int

record ScreenPosition =
  pos_x :: int
  pos_y :: int

record Dimensions =
  width :: int
  height :: int

record GridSize =
  size_n :: int

text \<open>The constructors: validation first, then the fields are stored as given.\<close>

definition GridCoordinate_init :: "int \<Rightarrow> int \<Rightarrow> py_error + GridCoordinate" where
  "GridCoordinate_init r c =
     (if r < 0 \<or> c < 0 then Inl (ValueError ''Grid coordinates must be non-negative'')
      else Inr \<lparr>row = r, col = c\<rparr>)"

definition ScreenPosition_init :: "int \<Rightarrow> int \<Rightarrow> py_error + ScreenPosition" where
  "ScreenPosition_init x y =
     (if x < 0 \<or> y < 0 then Inl (ValueError ''Screen position coordinates must be non-negative'')
      else Inr \<lparr>pos_x = x, pos_y = y\<rparr>)"

definition Dimensions_init :: "int \<Rightarrow> int \<Rightarrow> py_error + Dimensions" where
  "Dimensions_init w h =
     (if w \<le> 0 \<or> h \<le> 0 then Inl (ValueError ''Dimensions must be positive'')
      else Inr \<lparr>width = w, height = h\<rparr>)"

definition GridSize_init :: "int \<Rightarrow> py_error + GridSize" where
  "GridSize_init n =
     (if n \<le> 0 then Inl (ValueError ''Grid size must be positive'')
      else if n > 10 then Inl (ValueError ''Grid size too large (maximum 10)'')
      else Inr \<lparr>size_n = n\<rparr>)"

text \<open>\<open>GridSize()\<close>: the default argument is 3, which passes the validation.\<close>

definition GridSize_default :: GridSize where
  "GridSize_default = \<lparr>size_n = 3\<rparr>"

definition is_valid_for_grid :: "GridCoordinate \<Rightarrow> int \<Rightarrow> bool" where
  "is_valid_for_grid c n = ((0 \<le> row c \<and> row c < n) \<and> (0 \<le> col c \<and> col c < n))"

definition get_total_cells :: "GridSize \<Rightarrow> int" where
  "get_total_cells g = size_n g * size_n g"

definition is_valid_coordinate :: "GridSize \<Rightarrow> GridCoordinate \<Rightarrow> bool" where
  "is_valid_coordinate g c = is_valid_for_grid c (size_n g)"

section \<open>models/move.py\<close>

record Move =
  coordinate :: GridCoordinate
  player :: Player

section \<open>models/game_board.py\<close>

text \<open>
  The board is a list of rows, each a list of cells. \<open>_create_empty_board\<close> builds every
  row by its own comprehension, so no two rows are the same object and a write to one
  cell changes that cell only: the board is modelled as a value.
\<close>

type_synonym Board = "Player list list"

definition board_at :: "Board \<Rightarrow> int \<Rightarrow> int \<Rightarrow> py_error + Player" where
  "board_at b r c = bind_result (py_getitem b r) (\<lambda>line. py_getitem line c)"

definition create_empty_board :: "GridSize \<Rightarrow> Board" where
  "create_empty_board g =
     map (\<lambda>_. map (\<lambda>_. Player_NONE) (py_range (size_n g))) (py_range (size_n g))"

definition place_move :: "Board \<Rightarrow> GridCoordinate \<Rightarrow> Player \<Rightarrow> py_error + Board" where
  "place_move b c p =
     bind_result (py_getitem b (row c)) (\<lambda>line.
     bind_result (py_setitem line (col c) p) (\<lambda>line'.
       py_setitem b (row c) line'))"

definition get_cell_player :: "GridSize \<Rightarrow> Board \<Rightarrow> GridCoordinate \<Rightarrow> py_error + Player" where
  "get_cell_player g b c =
     (if is_valid_coordinate g c then board_at b (row c) (col c) else Inr Player_NONE)"

definition get_board_copy :: "Board \<Rightarrow> Board" where
  "get_board_copy b = map (\<lambda>line. line) b"

section \<open>models/board_validator.py\<close>

definition is_valid_position :: "GridSize \<Rightarrow> GridCoordinate \<Rightarrow> bool" where
  "is_valid_position g c = is_valid_coordinate g c"

definition is_cell_empty :: "GridSize \<Rightarrow> Board \<Rightarrow> GridCoordinate \<Rightarrow> py_error + bool" where
  "is_cell_empty g b c =
     (if \<not> is_valid_position g c then Inr False
      else bind_result (board_at b (row c) (col c)) (\<lambda>p. Inr (p = Player_NONE)))"

text \<open>The two \<open>for\<close> loops over \<open>range(size)\<close>, each leaving at the first hit.\<close>

fun has_empty_cell_loop :: "Board \<Rightarrow> int \<Rightarrow> int list \<Rightarrow> py_error + bool" where
  "has_empty_cell_loop b r [] = Inr False"
| "has_empty_cell_loop b r (c # cs) =
     bind_result (board_at b r c) (\<lambda>p.
       if p = Player_NONE then Inr True else has_empty_cell_loop b r cs)"

definition has_empty_cell_in_row :: "GridSize \<Rightarrow> Board \<Rightarrow> int \<Rightarrow> py_error + bool" where
  "has_empty_cell_in_row g b r = has_empty_cell_loop b r (py_range (size_n g))"

fun is_board_full_loop :: "GridSize \<Rightarrow> Board \<Rightarrow> int list \<Rightarrow> py_error + bool" where
  "is_board_full_loop g b [] = Inr True"
| "is_board_full_loop g b (r # rs) =
     bind_result (has_empty_cell_in_row g b r) (\<lambda>e.
       if e then Inr False else is_board_full_loop g b rs)"

definition is_board_full :: "GridSize \<Rightarrow> Board \<Rightarrow> py_error + bool" where
  "is_board_full g b = is_board_full_loop g b (py_range (size_n g))"

section \<open>models/win_checker.py\<close>

text \<open>
  \<open>cell1 == cell2 == cell3 != Player.NONE\<close> is Python's chained comparison: the
  conjunction of the three neighbouring comparisons.
\<close>

definition is_winning_line :: "Player \<Rightarrow> Player \<Rightarrow> Player \<Rightarrow> bool" where
  "is_winning_line cell1 cell2 cell3 = (cell1 = cell2 \<and> cell2 = cell3 \<and> cell3 \<noteq> Player_NONE)"

text \<open>
  One candidate line: the three cells are read in order (any of the reads may raise),
  and on a win the first cell is read again and returned.
\<close>

definition winning_line_at ::
  "Board \<Rightarrow> (int \<times> int) \<Rightarrow> (int \<times> int) \<Rightarrow> (int \<times> int) \<Rightarrow> py_error + Player option" where
  "winning_line_at b p1 p2 p3 =
     bind_result (board_at b (fst p1) (snd p1)) (\<lambda>cell1.
     bind_result (board_at b (fst p2) (snd p2)) (\<lambda>cell2.
     bind_result (board_at b (fst p3) (snd p3)) (\<lambda>cell3.
       if is_winning_line cell1 cell2 cell3
       then bind_result (board_at b (fst p1) (snd p1)) (\<lambda>w. Inr (Some w))
       else Inr None)))"

fun check_rows_loop :: "Board \<Rightarrow> int list \<Rightarrow> py_error + Player option" where
  "check_rows_loop b [] = Inr None"
| "check_rows_loop b (r # rs) =
     bind_result (winning_line_at b (r, 0) (r, 1) (r, 2)) (\<lambda>w.
       case w of Some p \<Rightarrow> Inr (Some p) | None \<Rightarrow> check_rows_loop b rs)"

definition check_rows_for_winner :: "GridSize \<Rightarrow> Board \<Rightarrow> py_error + Player option" where
  "check_rows_for_winner g b = check_rows_loop b (py_range (size_n g))"

fun check_columns_loop :: "Board \<Rightarrow> int list \<Rightarrow> py_error + Player option" where
  "check_columns_loop b [] = Inr None"
| "check_columns_loop b (c # cs) =
     bind_result (winning_line_at b (0, c) (1, c) (2, c)) (\<lambda>w.
       case w of Some p \<Rightarrow> Inr (Some p) | None \<Rightarrow> check_columns_loop b cs)"

definition check_columns_for_winner :: "GridSize \<Rightarrow> Board \<Rightarrow> py_error + Player option" where
  "check_columns_for_winner g b = check_columns_loop b (py_range (size_n g))"

definition check_diagonals_for_winner :: "Board \<Rightarrow> py_error + Player option" where
  "check_diagonals_for_winner b =
     bind_result (winning_line_at b (0, 0) (1, 1) (2, 2)) (\<lambda>w.
       case w of Some p \<Rightarrow> Inr (Some p)
       | None \<Rightarrow> winning_line_at b (0, 2) (1, 1) (2, 0))"

text \<open>
  \<open>if winner:\<close> tests a value that is \<open>None\<close> or a \<open>Player\<close>; every member of a plain
  \<open>Enum\<close> is truthy, so the test is "is not \<open>None\<close>".
\<close>

definition check_for_winner :: "GridSize \<Rightarrow> Board \<Rightarrow> py_error + Player option" where
  "check_for_winner g b =
     bind_result (check_rows_for_winner g b) (\<lambda>w.
       case w of Some p \<Rightarrow> Inr (Some p)
       | None \<Rightarrow>
           bind_result (check_columns_for_winner g b) (\<lambda>w'.
             case w' of Some p \<Rightarrow> Inr (Some p)
             | None \<Rightarrow> check_diagonals_for_winner b))"

section \<open>models/game_state.py\<close>

text \<open>
  \<open>GameState\<close> owns a \<open>GameBoard\<close>, a \<open>BoardValidator\<close> and a \<open>WinChecker\<close>, all built from
  the one \<open>grid_size\<close>; the record keeps that grid size and the board's cell matrix.
  A method that mutates the object returns the updated record; a method that may raise
  returns the outcome together with the object as the raise leaves it.
\<close>

record GameState =
  grid_size :: GridSize
  board :: Board
  current_player :: Player
  status :: GameStatus
  winner :: "Player option"
  move_history :: "Move list"

definition initialize_game_state :: "GameState \<Rightarrow> GameState" where
  "initialize_game_state s =
     s\<lparr>current_player := Player_X, status := IN_PROGRESS, winner := None, move_history := []\<rparr>"

definition reset_board :: "GameState \<Rightarrow> GameState" where
  "reset_board s = s\<lparr>board := create_empty_board (grid_size s)\<rparr>"

text \<open>
  \<open>__init__\<close>: \<open>grid_size or GridSize()\<close>, then the components (the empty board), then
  the state variables.
\<close>

definition GameState_init :: "GridSize option \<Rightarrow> GameState" where
  "GameState_init go =
     (let g = (case go of None \<Rightarrow> GridSize_default | Some g' \<Rightarrow> g')
      in initialize_game_state
           \<lparr>grid_size = g, board = create_empty_board g, current_player = Player_NONE,
            status = IN_PROGRESS, winner = None, move_history = []\<rparr>)"

definition reset_to_initial_state :: "GameState \<Rightarrow> GameState" where
  "reset_to_initial_state s = reset_board (initialize_game_state s)"

definition is_game_in_progress :: "GameState \<Rightarrow> bool" where
  "is_game_in_progress s = (status s = IN_PROGRESS)"

text \<open>\<open>and\<close> does not evaluate its right operand when the left one is false.\<close>

definition is_valid_move :: "GameState \<Rightarrow> GridCoordinate \<Rightarrow> py_error + bool" where
  "is_valid_move s c =
     (if is_game_in_progress s then is_cell_empty (grid_size s) (board s) c else Inr False)"

definition get_cell :: "GameState \<Rightarrow> GridCoordinate \<Rightarrow> py_error + Player" where
  "get_cell s c = get_cell_player (grid_size s) (board s) c"

definition place_current_player_move :: "GameState \<Rightarrow> GridCoordinate \<Rightarrow> (py_error + unit) \<times> GameState" where
  "place_current_player_move s c =
     (let move = \<lparr>coordinate = c, player = current_player s\<rparr>
      in case place_move (board s) c (current_player s) of
           Inl e \<Rightarrow> (Inl e, s)
         | Inr b' \<Rightarrow> (Inr (), s\<lparr>board := b', move_history := move_history s @ [move]\<rparr>))"

definition set_winner_and_end_game :: "GameState \<Rightarrow> Player \<Rightarrow> GameState" where
  "set_winner_and_end_game s w =
     s\<lparr>winner := Some w, status := (if w = Player_X then X_WINS else O_WINS)\<rparr>"

definition set_tie_game :: "GameState \<Rightarrow> GameState" where
  "set_tie_game s = s\<lparr>status := TIE\<rparr>"

definition check_for_game_completion :: "GameState \<Rightarrow> (py_error + unit) \<times> GameState" where
  "check_for_game_completion s =
     (case check_for_winner (grid_size s) (board s) of
        Inl e \<Rightarrow> (Inl e, s)
      | Inr (Some w) \<Rightarrow> (Inr (), set_winner_and_end_game s w)
      | Inr None \<Rightarrow>
          (case is_board_full (grid_size s) (board s) of
             Inl e \<Rightarrow> (Inl e, s)
           | Inr full \<Rightarrow> (Inr (), if full then set_tie_game s else s)))"

definition switch_current_player :: "GameState \<Rightarrow> GameState" where
  "switch_current_player s =
     s\<lparr>current_player := (if current_player s = Player_X then Player_O else Player_X)\<rparr>"

definition switch_to_next_player_if_game_continues :: "GameState \<Rightarrow> GameState" where
  "switch_to_next_player_if_game_continues s =
     (if is_game_in_progress s then switch_current_player s else s)"

definition execute_move :: "GameState \<Rightarrow> GridCoordinate \<Rightarrow> (py_error + bool) \<times> GameState" where
  "execute_move s c =
     (case is_valid_move s c of
        Inl e \<Rightarrow> (Inl e, s)
      | Inr ok \<Rightarrow>
          if \<not> ok then (Inr False, s)
          else
            (case place_current_player_move s c of
               (Inl e, s1) \<Rightarrow> (Inl e, s1)
             | (Inr _, s1) \<Rightarrow>
                 (case check_for_game_completion s1 of
                    (Inl e, s2) \<Rightarrow> (Inl e, s2)
                  | (Inr _, s2) \<Rightarrow> (Inr True, switch_to_next_player_if_game_continues s2))))"

section \<open>services/move_executor.py, services/game_service_core.py\<close>

text \<open>
  \<open>MoveExecutor\<close> and \<open>GameService\<close> hold the same \<open>GameState\<close> object; their methods
  are functions of that state.
\<close>

definition is_game_already_finished :: "GameState \<Rightarrow> bool" where
  "is_game_already_finished s = (status s \<noteq> IN_PROGRESS)"

definition is_move_valid :: "GameState \<Rightarrow> GridCoordinate \<Rightarrow> py_error + bool" where
  "is_move_valid s c = is_valid_move s c"

definition create_success_message :: "GameState \<Rightarrow> string" where
  "create_success_message s =
     (if status s = IN_PROGRESS then ''Move successful: '' @ Player_name (current_player s)
      else ''Move successful: Game ended'')"

definition execute_valid_move ::
  "GameState \<Rightarrow> GridCoordinate \<Rightarrow> (py_error + bool \<times> string) \<times> GameState" where
  "execute_valid_move s c =
     (case execute_move s c of
        (Inl e, s') \<Rightarrow> (Inl e, s')
      | (Inr success, s') \<Rightarrow>
          if success then (Inr (True, create_success_message s'), s')
          else (Inr (False, ''Failed to make move''), s'))"

definition attempt_move ::
  "GameState \<Rightarrow> GridCoordinate \<Rightarrow> (py_error + bool \<times> string) \<times> GameState" where
  "attempt_move s c =
     (if is_game_already_finished s then (Inr (False, ''Game is already finished''), s)
      else
        (case is_move_valid s c of
           Inl e \<Rightarrow> (Inl e, s)
         | Inr ok \<Rightarrow>
             if \<not> ok then (Inr (False, ''Invalid move: cell is occupied or out of bounds''), s)
             else execute_valid_move s c))"

record GameService =
  game_state :: GameState

definition GameService_init :: GameService where
  "GameService_init = \<lparr>game_state = GameState_init None\<rparr>"

definition start_new_game :: "GameService \<Rightarrow> GameState \<times> GameService" where
  "start_new_game svc =
     (let s' = reset_to_initial_state (game_state svc)
      in (s', svc\<lparr>game_state := s'\<rparr>))"

definition make_move ::
  "GameService \<Rightarrow> GridCoordinate \<Rightarrow> (py_error + bool \<times> string) \<times> GameService" where
  "make_move svc c =
     (case attempt_move (game_state svc) c of (r, s') \<Rightarrow> (r, svc\<lparr>game_state := s'\<rparr>))"

definition is_game_over :: "GameService \<Rightarrow> bool" where
  "is_game_over svc = (status (game_state svc) \<noteq> IN_PROGRESS)"

definition can_restart :: "GameService \<Rightarrow> bool" where
  "can_restart svc = is_game_over svc"

section \<open>Reachable game states\<close>

text \<open>
  A game state is reachable when it is a freshly constructed \<open>GameState\<close> of a grid size
  that \<open>GridSize\<close> accepts, or comes from a reachable one by a call of \<open>execute_move\<close>,
  of \<open>attempt_move\<close> (whatever the call returns or raises) or of
  \<open>reset_to_initial_state\<close>. The queries do not change the state.
\<close>

inductive reachable :: "GameState \<Rightarrow> bool" where
  fresh: "GridSize_init n = Inr g \<Longrightarrow> reachable (GameState_init (Some g))"
| moved: "reachable s \<Longrightarrow> reachable (snd (execute_move s c))"
| attempted: "reachable s \<Longrightarrow> reachable (snd (attempt_move s c))"
| restarted: "reachable s \<Longrightarrow> reachable (reset_to_initial_state s)"

section \<open>Notions used to state the properties\<close>

subsection \<open>Well-formed boards and states\<close>

text \<open>An \<open>n\<close> by \<open>n\<close> board, and a state whose board has the dimensions of its grid size.\<close>

definition wf_board :: "nat \<Rightarrow> Board \<Rightarrow> bool" where
  "wf_board n b = (length b = n \<and> list_all (\<lambda>line. length line = n) b)"

definition wf_state :: "GameState \<Rightarrow> bool" where
  "wf_state s = (1 \<le> size_n (grid_size s) \<and> size_n (grid_size s) \<le> 10 \<and>
                 wf_board (nat (size_n (grid_size s))) (board s))"

text \<open>The number of cells that hold a player, and the boards without an empty cell.\<close>

definition count_occupied :: "Board \<Rightarrow> nat" where
  "count_occupied b = length (filter (\<lambda>p. p \<noteq> Player_NONE) (concat b))"

definition no_empty_cell :: "Board \<Rightarrow> bool" where
  "no_empty_cell b = list_all (list_all (\<lambda>p. p \<noteq> Player_NONE)) b"

text \<open>The state right after the current player's symbol is placed at \<open>c\<close> and logged.\<close>

definition placed :: "GameState \<Rightarrow> GridCoordinate \<Rightarrow> GameState" where
  "placed s c =
     s\<lparr>board := (board s)[nat (row c) := (board s ! nat (row c))[nat (col c) := current_player s]],
       move_history := move_history s @ [\<lparr>coordinate = c, player = current_player s\<rparr>]\<rparr>"

subsection \<open>Complete lines of the specification\<close>

text \<open>
  The candidate lines of an \<open>n\<close> by \<open>n\<close> board in the scan order of the specification:
  every row, then every column, then the main diagonal and the anti-diagonal, each of
  \<open>n\<close> cells.
\<close>

definition row_cells :: "nat \<Rightarrow> nat \<Rightarrow> (nat \<times> nat) list" where
  "row_cells n r = map (\<lambda>c. (r, c)) [0..<n]"

definition column_cells :: "nat \<Rightarrow> nat \<Rightarrow> (nat \<times> nat) list" where
  "column_cells n c = map (\<lambda>r. (r, c)) [0..<n]"

definition main_diagonal_cells :: "nat \<Rightarrow> (nat \<times> nat) list" where
  "main_diagonal_cells n = map (\<lambda>i. (i, i)) [0..<n]"

definition anti_diagonal_cells :: "nat \<Rightarrow> (nat \<times> nat) list" where
  "anti_diagonal_cells n = map (\<lambda>i. (i, n - 1 - i)) [0..<n]"

definition candidate_lines :: "nat \<Rightarrow> (nat \<times> nat) list list" where
  "candidate_lines n =
     map (row_cells n) [0..<n] @ map (column_cells n) [0..<n] @
     [main_diagonal_cells n, anti_diagonal_cells n]"

definition line_owned :: "Board \<Rightarrow> Player \<Rightarrow> (nat \<times> nat) list \<Rightarrow> bool" where
  "line_owned b p cells = (p \<noteq> Player_NONE \<and> list_all (\<lambda>rc. b ! fst rc ! snd rc = p) cells)"

definition has_complete_line :: "nat \<Rightarrow> Board \<Rightarrow> Player \<Rightarrow> bool" where
  "has_complete_line n b p = list_ex (line_owned b p) (candidate_lines n)"

text \<open>
  The winner detection as the specification words it: the owner of the first candidate
  line, in scan order, whose cells are all equal and not \<open>NONE\<close>; none if there is no
  such line.
\<close>

definition line_winner :: "Board \<Rightarrow> (nat \<times> nat) list \<Rightarrow> Player option" where
  "line_winner b cells =
     (case cells of [] \<Rightarrow> None
      | rc # _ \<Rightarrow> if line_owned b (b ! fst rc ! snd rc) cells then Some (b ! fst rc ! snd rc) else None)"

fun first_winner :: "Board \<Rightarrow> (nat \<times> nat) list list \<Rightarrow> Player option" where
  "first_winner b [] = None"
| "first_winner b (cells # rest) =
     (case line_winner b cells of Some p \<Rightarrow> Some p | None \<Rightarrow> first_winner b rest)"

definition spec_checkWinner :: "nat \<Rightarrow> Board \<Rightarrow> Player option" where
  "spec_checkWinner n b = first_winner b (candidate_lines n)"

subsection \<open>Sequences of moves\<close>

text \<open>The player who makes move number \<open>k\<close> (counted from 0) of a strictly alternating game.\<close>

definition mover :: "nat \<Rightarrow> Player" where
  "mover k = (if even k then Player_X else Player_O)"

text \<open>
  \<open>run_moves\<close> executes a list of moves and yields the final state when every one of
  them is executed successfully (\<open>execute_move\<close> returns \<open>True\<close>), nothing otherwise.
\<close>

fun run_moves :: "GameState \<Rightarrow> GridCoordinate list \<Rightarrow> GameState option" where
  "run_moves s [] = Some s"
| "run_moves s (c # cs) =
     (case execute_move s c of
        (Inl e, s') \<Rightarrow> None
      | (Inr ok, s') \<Rightarrow> if ok then run_moves s' cs else None)"

definition at :: "int \<Rightarrow> int \<Rightarrow> GridCoordinate" where
  "at r c = \<lparr>row = r, col = c\<rparr>"

subsection \<open>Concrete boards and games\<close>

text \<open>A 3 by 3 board on which X owns the first row and O the second.\<close>

definition board_two_lines :: Board where
  "board_two_lines =
     [[Player_X, Player_X, Player_X],
      [Player_O, Player_O, Player_O],
      [Player_NONE, Player_NONE, Player_NONE]]"

text \<open>A 4 by 4 board whose first row holds X in three of its four cells.\<close>

definition board_three_of_four :: Board where
  "board_three_of_four =
     [[Player_X, Player_X, Player_X, Player_NONE],
      [Player_O, Player_O, Player_NONE, Player_NONE],
      [Player_NONE, Player_NONE, Player_NONE, Player_NONE],
      [Player_NONE, Player_NONE, Player_NONE, Player_NONE]]"

text \<open>
  Sixteen moves that fill a 4 by 4 board. The last one, by O at (3, 0), takes the last
  empty cell and gives O the whole anti-diagonal (0,3), (1,2), (2,1), (3,0).
\<close>

definition game_4x4 :: "GridCoordinate list" where
  "game_4x4 =
     [at 0 1, at 0 0, at 1 0, at 0 2, at 1 1, at 0 3, at 1 3, at 1 2,
      at 2 0, at 2 1, at 2 2, at 2 3, at 3 2, at 3 1, at 3 3, at 3 0]"

definition board_4x4_before_last :: Board where
  "board_4x4_before_last =
     [[Player_O, Player_X, Player_O, Player_O],
      [Player_X, Player_X, Player_O, Player_X],
      [Player_X, Player_O, Player_X, Player_O],
      [Player_NONE, Player_O, Player_X, Player_X]]"

definition board_4x4_final :: Board where
  "board_4x4_final =
     [[Player_O, Player_X, Player_O, Player_O],
      [Player_X, Player_X, Player_O, Player_X],
      [Player_X, Player_O, Player_X, Player_O],
      [Player_O, Player_O, Player_X, Player_X]]"

text \<open>Scenario A, Scenario B and a game in which the ninth move wins and fills the board.\<close>

definition scenario_A :: "GridCoordinate list" where
  "scenario_A = [at 0 0, at 1 0, at 0 1, at 1 1, at 0 2]"

definition scenario_B :: "GridCoordinate list" where
  "scenario_B = [at 0 0, at 0 1, at 0 2, at 1 0, at 1 2, at 1 1, at 2 0, at 2 2, at 2 1]"

definition game_win_on_last_cell :: "GridCoordinate list" where
  "game_win_on_last_cell =
     [at 0 0, at 0 1, at 1 2, at 0 2, at 2 0, at 1 0, at 2 2, at 2 1, at 1 1]"

text \<open>The states these games lead to.\<close>

definition state_4x4_before_last :: GameState where
  "state_4x4_before_last =
     \<lparr>grid_size = \<lparr>size_n = 4\<rparr>, board = board_4x4_before_last, current_player = Player_O,
      status = IN_PROGRESS, winner = None,
      move_history =
        map2 (\<lambda>c k. \<lparr>coordinate = c, player = mover k\<rparr>) (butlast game_4x4) [0..<15]\<rparr>"

definition state_4x4_final :: GameState where
  "state_4x4_final =
     \<lparr>grid_size = \<lparr>size_n = 4\<rparr>, board = board_4x4_final, current_player = Player_O,
      status = TIE, winner = None,
      move_history = map2 (\<lambda>c k. \<lparr>coordinate = c, player = mover k\<rparr>) game_4x4 [0..<16]\<rparr>"

definition state_after_A :: GameState where
  "state_after_A =
     \<lparr>grid_size = GridSize_default,
      board = [[Player_X, Player_X, Player_X],
               [Player_O, Player_O, Player_NONE],
               [Player_NONE, Player_NONE, Player_NONE]],
      current_player = Player_X, status = X_WINS, winner = Some Player_X,
      move_history = map2 (\<lambda>c k. \<lparr>coordinate = c, player = mover k\<rparr>) scenario_A [0..<5]\<rparr>"

definition state_after_centre :: GameState where
  "state_after_centre =
     \<lparr>grid_size = GridSize_default,
      board = [[Player_NONE, Player_NONE, Player_NONE],
               [Player_NONE, Player_X, Player_NONE],
               [Player_NONE, Player_NONE, Player_NONE]],
      current_player = Player_O, status = IN_PROGRESS, winner = None,
      move_history = [\<lparr>coordinate = at 1 1, player = Player_X\<rparr>]\<rparr>"

definition state_after_last_cell :: GameState where
  "state_after_last_cell =
     \<lparr>grid_size = GridSize_default,
      board = [[Player_X, Player_O, Player_O],
               [Player_O, Player_X, Player_X],
               [Player_X, Player_O, Player_X]],
      current_player = Player_X, status = X_WINS, winner = Some Player_X,
      move_history =
        map2 (\<lambda>c k. \<lparr>coordinate = c, player = mover k\<rparr>) game_win_on_last_cell [0..<9]\<rparr>"

subsection \<open>Acceptable moves\<close>

text \<open>
  The three conditions of the move contract: the game is in progress, the coordinate is
  inside the grid, and the target cell is empty.
\<close>

definition move_allowed :: "GameState \<Rightarrow> GridCoordinate \<Rightarrow> bool" where
  "move_allowed s c =
     (status s = IN_PROGRESS \<and>
      (0 \<le> row c \<and> row c < size_n (grid_size s) \<and> 0 \<le> col c \<and> col c < size_n (grid_size s)) \<and>
      board s ! nat (row c) ! nat (col c) = Player_NONE)"

section \<open>Subscripts and boards\<close>

lemma bind_result_simps [simp]:
  "bind_result (Inl e) f = Inl e"
  "bind_result (Inr v) f = f v"
  by (simp_all add: bind_result_def)

lemma py_getitem_in_range:
  "0 \<le> i \<Longrightarrow> i < int (length xs) \<Longrightarrow> py_getitem xs i = Inr (xs ! nat i)"
  by (simp add: py_getitem_def py_position_def)

lemma py_getitem_beyond:
  "int (length xs) \<le> i \<Longrightarrow> py_getitem xs i = Inl IndexError"
  by (simp add: py_getitem_def py_position_def)

lemma py_setitem_in_range:
  "0 \<le> i \<Longrightarrow> i < int (length xs) \<Longrightarrow> py_setitem xs i v = Inr (xs[nat i := v])"
  by (simp add: py_setitem_def py_position_def)

lemma wf_board_row:
  "wf_board n b \<Longrightarrow> k < n \<Longrightarrow> length (b ! k) = n"
  by (simp add: wf_board_def list_all_length)

lemma board_at_in_range:
  assumes "wf_board n b" "0 \<le> r" "r < int n" "0 \<le> c" "c < int n"
  shows "board_at b r c = Inr (b ! nat r ! nat c)"
proof -
  have len: "length b = n" using assms(1) by (simp add: wf_board_def)
  have "nat r < n" using assms by linarith
  then have "length (b ! nat r) = n" using assms(1) by (rule wf_board_row[rotated])
  then show ?thesis using assms len
    by (simp add: board_at_def py_getitem_in_range)
qed

lemma is_cell_empty_wf:
  assumes "wf_board (nat (size_n g)) b"
  shows "is_cell_empty g b c =
         Inr (is_valid_coordinate g c \<and> b ! nat (row c) ! nat (col c) = Player_NONE)"
proof (cases "is_valid_coordinate g c")
  case False
  then show ?thesis by (simp add: is_cell_empty_def is_valid_position_def)
next
  case True
  then have "0 \<le> row c" "row c < int (nat (size_n g))" "0 \<le> col c" "col c < int (nat (size_n g))"
    by (auto simp: is_valid_coordinate_def is_valid_for_grid_def)
  from board_at_in_range[OF assms this] True show ?thesis
    by (simp add: is_cell_empty_def is_valid_position_def)
qed

lemma place_move_wf:
  assumes "wf_board n b" "0 \<le> row c" "row c < int n" "0 \<le> col c" "col c < int n"
  shows "place_move b c p = Inr (b[nat (row c) := (b ! nat (row c))[nat (col c) := p]])"
proof -
  have len: "length b = n" using assms(1) by (simp add: wf_board_def)
  have "nat (row c) < n" using assms by linarith
  then have "length (b ! nat (row c)) = n" using assms(1) by (rule wf_board_row[rotated])
  then show ?thesis using assms len
    by (simp add: place_move_def py_getitem_in_range py_setitem_in_range)
qed

lemma wf_board_update:
  "wf_board n b \<Longrightarrow> i < n \<Longrightarrow> wf_board n (b[i := (b ! i)[j := p]])"
  by (auto simp: wf_board_def list_all_length nth_list_update)

lemma filter_update_length:
  "i < length xs \<Longrightarrow> \<not> P (xs ! i) \<Longrightarrow> P v \<Longrightarrow>
   length (filter P (xs[i := v])) = Suc (length (filter P xs))"
  by (induction xs arbitrary: i) (auto split: nat.splits)

lemma count_occupied_update:
  "i < length b \<Longrightarrow> j < length (b ! i) \<Longrightarrow> b ! i ! j = Player_NONE \<Longrightarrow> p \<noteq> Player_NONE \<Longrightarrow>
   count_occupied (b[i := (b ! i)[j := p]]) = Suc (count_occupied b)"
proof (induction b arbitrary: i)
  case Nil
  then show ?case by simp
next
  case (Cons line b)
  show ?case
  proof (cases i)
    case 0
    with Cons.prems show ?thesis
      by (simp add: count_occupied_def filter_update_length)
  next
    case (Suc k)
    with Cons.prems Cons.IH[of k] show ?thesis
      by (simp add: count_occupied_def)
  qed
qed

lemma create_empty_board_replicate:
  "create_empty_board g = replicate (nat (size_n g)) (replicate (nat (size_n g)) Player_NONE)"
  by (simp add: create_empty_board_def py_range_def map_replicate_const)

lemma count_occupied_empty: "count_occupied (create_empty_board g) = 0"
  by (simp add: count_occupied_def create_empty_board_def filter_empty_conv)

lemma wf_board_empty: "wf_board (nat (size_n g)) (create_empty_board g)"
  by (simp add: wf_board_def create_empty_board_def py_range_def list_all_length)

lemma set_py_range: "set (py_range n) = {i. 0 \<le> i \<and> i < n}"
proof -
  have "i \<in> int ` {0..<nat n} \<longleftrightarrow> 0 \<le> i \<and> i < n" for i
  proof
    assume "0 \<le> i \<and> i < n"
    then have "i = int (nat i)" "nat i \<in> {0..<nat n}" by auto
    then show "i \<in> int ` {0..<nat n}" by (rule image_eqI)
  qed auto
  then show ?thesis by (auto simp: py_range_def)
qed

lemma has_empty_cell_loop_wf:
  assumes "wf_board n b" "0 \<le> r" "r < int n"
  shows "\<forall>c\<in>set cs. 0 \<le> c \<and> c < int n \<Longrightarrow>
         has_empty_cell_loop b r cs = Inr (\<exists>c\<in>set cs. b ! nat r ! nat c = Player_NONE)"
proof (induction cs)
  case Nil
  then show ?case by simp
next
  case (Cons c cs)
  then have "board_at b r c = Inr (b ! nat r ! nat c)"
    using board_at_in_range[OF assms, of c] by simp
  with Cons show ?case by auto
qed

lemma is_board_full_loop_wf:
  assumes "wf_board (nat (size_n g)) b"
  shows "\<forall>r\<in>set rs. 0 \<le> r \<and> r < size_n g \<Longrightarrow>
         is_board_full_loop g b rs =
         Inr (\<forall>r\<in>set rs. \<forall>c\<in>set (py_range (size_n g)). b ! nat r ! nat c \<noteq> Player_NONE)"
proof (induction rs)
  case Nil
  then show ?case by simp
next
  case (Cons r rs)
  then have r: "0 \<le> r" "r < int (nat (size_n g))" by auto
  have "has_empty_cell_in_row g b r =
        Inr (\<exists>c\<in>set (py_range (size_n g)). b ! nat r ! nat c = Player_NONE)"
    unfolding has_empty_cell_in_row_def
    by (rule has_empty_cell_loop_wf[OF assms r]) (auto simp: set_py_range)
  with Cons show ?case by auto
qed

lemma no_empty_cell_nth:
  "wf_board n b \<Longrightarrow> no_empty_cell b = (\<forall>i<n. \<forall>j<n. b ! i ! j \<noteq> Player_NONE)"
  by (auto simp: no_empty_cell_def wf_board_def list_all_length)

lemma is_board_full_wf:
  assumes "wf_board (nat (size_n g)) b"
  shows "is_board_full g b = Inr (no_empty_cell b)"
proof -
  have "is_board_full g b =
        Inr (\<forall>r\<in>set (py_range (size_n g)). \<forall>c\<in>set (py_range (size_n g)). b ! nat r ! nat c \<noteq> Player_NONE)"
    unfolding is_board_full_def
    by (rule is_board_full_loop_wf[OF assms]) (auto simp: set_py_range)
  also have "(\<forall>r\<in>set (py_range (size_n g)). \<forall>c\<in>set (py_range (size_n g)). b ! nat r ! nat c \<noteq> Player_NONE)
             = (\<forall>i<nat (size_n g). \<forall>j<nat (size_n g). b ! i ! j \<noteq> Player_NONE)"
    by (auto simp: py_range_def)
  finally show ?thesis by (simp add: no_empty_cell_nth[OF assms])
qed

lemma winning_line_at_wf:
  assumes "wf_board n b"
    and "0 \<le> r1" "r1 < int n" "0 \<le> c1" "c1 < int n"
    and "0 \<le> r2" "r2 < int n" "0 \<le> c2" "c2 < int n"
    and "0 \<le> r3" "r3 < int n" "0 \<le> c3" "c3 < int n"
  shows "winning_line_at b (r1, c1) (r2, c2) (r3, c3) =
         Inr (if is_winning_line (b ! nat r1 ! nat c1) (b ! nat r2 ! nat c2) (b ! nat r3 ! nat c3)
              then Some (b ! nat r1 ! nat c1) else None)"
  using assms by (simp add: winning_line_at_def board_at_in_range[OF assms(1)])

section \<open>The win checker on a 3 by 3 board\<close>

lemma py_range_3: "py_range 3 = [0, 1, 2]"
  by (simp add: py_range_def upt_rec)

lemma candidate_lines_3:
  "candidate_lines 3 =
    [[(0,0),(0,1),(0,2)], [(1,0),(1,1),(1,2)], [(2,0),(2,1),(2,2)],
     [(0,0),(1,0),(2,0)], [(0,1),(1,1),(2,1)], [(0,2),(1,2),(2,2)],
     [(0,0),(1,1),(2,2)], [(0,2),(1,1),(2,0)]]"
  by (simp add: candidate_lines_def row_cells_def column_cells_def main_diagonal_cells_def
      anti_diagonal_cells_def upt_rec numeral_3_eq_3)

lemma line_winner_3:
  "line_winner b [(r1, c1), (r2, c2), (r3, c3)] =
     (if is_winning_line (b ! r1 ! c1) (b ! r2 ! c2) (b ! r3 ! c3) then Some (b ! r1 ! c1) else None)"
  by (auto simp: line_winner_def line_owned_def is_winning_line_def)

lemma winning_line_at_3:
  assumes "wf_board 3 b" "r1 < 3" "c1 < 3" "r2 < 3" "c2 < 3" "r3 < 3" "c3 < 3"
  shows "winning_line_at b (int r1, int c1) (int r2, int c2) (int r3, int c3) =
         Inr (line_winner b [(r1, c1), (r2, c2), (r3, c3)])"
  using assms winning_line_at_wf[OF assms(1), of "int r1" "int c1" "int r2" "int c2" "int r3" "int c3"]
  by (simp add: line_winner_3)

lemma check_for_winner_3:
  assumes "wf_board 3 b"
  shows "check_for_winner \<lparr>size_n = 3\<rparr> b = Inr (spec_checkWinner 3 b)"
proof -
  note w = winning_line_at_3[OF assms]
  have rows: "winning_line_at b (0, 0) (0, 1) (0, 2) = Inr (line_winner b [(0,0),(0,1),(0,2)])"
             "winning_line_at b (1, 0) (1, 1) (1, 2) = Inr (line_winner b [(1,0),(1,1),(1,2)])"
             "winning_line_at b (2, 0) (2, 1) (2, 2) = Inr (line_winner b [(2,0),(2,1),(2,2)])"
    using w[of 0 0 0 1 0 2] w[of 1 0 1 1 1 2] w[of 2 0 2 1 2 2] by simp_all
  have cols: "winning_line_at b (0, 0) (1, 0) (2, 0) = Inr (line_winner b [(0,0),(1,0),(2,0)])"
             "winning_line_at b (0, 1) (1, 1) (2, 1) = Inr (line_winner b [(0,1),(1,1),(2,1)])"
             "winning_line_at b (0, 2) (1, 2) (2, 2) = Inr (line_winner b [(0,2),(1,2),(2,2)])"
    using w[of 0 0 1 0 2 0] w[of 0 1 1 1 2 1] w[of 0 2 1 2 2 2] by simp_all
  have diags: "winning_line_at b (0, 0) (1, 1) (2, 2) = Inr (line_winner b [(0,0),(1,1),(2,2)])"
              "winning_line_at b (0, 2) (1, 1) (2, 0) = Inr (line_winner b [(0,2),(1,1),(2,0)])"
    using w[of 0 0 1 1 2 2] w[of 0 2 1 1 2 0] by simp_all
  show ?thesis
    by (simp add: check_for_winner_def check_rows_for_winner_def check_columns_for_winner_def
        check_diagonals_for_winner_def py_range_3 rows cols diags spec_checkWinner_def
        candidate_lines_3 split: option.splits)
qed

lemma first_winner_None:
  "first_winner b ls = None \<longleftrightarrow> (\<forall>cells\<in>set ls. line_winner b cells = None)"
  by (induction ls) (auto split: option.splits)

lemma first_winner_Some:
  "first_winner b ls = Some p \<Longrightarrow> \<exists>cells\<in>set ls. line_winner b cells = Some p"
  by (induction ls) (auto split: option.splits)

lemma line_winner_Some: "line_winner b cells = Some p \<longleftrightarrow> cells \<noteq> [] \<and> line_owned b p cells"
  by (cases cells) (auto simp: line_winner_def line_owned_def)

lemma candidate_lines_nonempty: "0 < n \<Longrightarrow> cells \<in> set (candidate_lines n) \<Longrightarrow> cells \<noteq> []"
  by (auto simp: candidate_lines_def row_cells_def column_cells_def main_diagonal_cells_def
      anti_diagonal_cells_def)

lemma spec_checkWinner_None:
  assumes "0 < n"
  shows "spec_checkWinner n b = None \<longleftrightarrow> (\<forall>p. \<not> has_complete_line n b p)"
proof -
  have "line_winner b cells = None \<longleftrightarrow> (\<forall>p. \<not> line_owned b p cells)"
    if "cells \<in> set (candidate_lines n)" for cells
    using candidate_lines_nonempty[OF assms that] line_winner_Some[of b cells]
    by (metis option.exhaust option.simps(3))
  then show ?thesis
    by (auto simp: spec_checkWinner_def first_winner_None has_complete_line_def list_ex_iff)
qed

lemma spec_checkWinner_Some:
  "spec_checkWinner n b = Some p \<Longrightarrow> has_complete_line n b p"
  unfolding spec_checkWinner_def has_complete_line_def list_ex_iff
  using first_winner_Some line_winner_Some by blast

section \<open>The win checker on other sizes, and one move\<close>

lemma winning_line_at_owner:
  "winning_line_at b p1 p2 p3 = Inr (Some w) \<Longrightarrow> w \<noteq> Player_NONE"
  by (auto simp: winning_line_at_def bind_result_def is_winning_line_def
      split: sum.splits if_splits)

lemma check_rows_loop_owner:
  "check_rows_loop b rs = Inr (Some w) \<Longrightarrow> w \<noteq> Player_NONE"
  by (induction rs) (auto simp: bind_result_def split: sum.splits option.splits
      dest: winning_line_at_owner)

lemma check_columns_loop_owner:
  "check_columns_loop b cs = Inr (Some w) \<Longrightarrow> w \<noteq> Player_NONE"
  by (induction cs) (auto simp: bind_result_def split: sum.splits option.splits
      dest: winning_line_at_owner)

lemma check_for_winner_owner:
  "check_for_winner g b = Inr (Some w) \<Longrightarrow> w \<noteq> Player_NONE"
  by (auto simp: check_for_winner_def check_rows_for_winner_def check_columns_for_winner_def
      check_diagonals_for_winner_def bind_result_def
      split: sum.splits option.splits
      dest: winning_line_at_owner check_rows_loop_owner check_columns_loop_owner)

lemma check_rows_loop_total:
  assumes "wf_board n b" "3 \<le> n"
  shows "\<forall>r\<in>set rs. 0 \<le> r \<and> r < int n \<Longrightarrow> \<exists>w. check_rows_loop b rs = Inr w"
proof (induction rs)
  case Nil
  then show ?case by simp
next
  case (Cons r rs)
  then have "0 \<le> r" "r < int n" by auto
  with assms(2) winning_line_at_wf[OF assms(1), of r 0 r 1 r 2] Cons show ?case
    by (auto split: option.splits)
qed

lemma check_columns_loop_total:
  assumes "wf_board n b" "3 \<le> n"
  shows "\<forall>c\<in>set cs. 0 \<le> c \<and> c < int n \<Longrightarrow> \<exists>w. check_columns_loop b cs = Inr w"
proof (induction cs)
  case Nil
  then show ?case by simp
next
  case (Cons c cs)
  then have "0 \<le> c" "c < int n" by auto
  with assms(2) winning_line_at_wf[OF assms(1), of 0 c 1 c 2 c] Cons show ?case
    by (auto split: option.splits)
qed

lemma check_diagonals_total:
  assumes "wf_board n b" "3 \<le> n"
  shows "\<exists>w. check_diagonals_for_winner b = Inr w"
  using assms(2) winning_line_at_wf[OF assms(1), of 0 0 1 1 2 2]
    winning_line_at_wf[OF assms(1), of 0 2 1 1 2 0]
  by (auto simp: check_diagonals_for_winner_def split: option.splits)

lemma check_for_winner_total:
  assumes "wf_board (nat (size_n g)) b" "3 \<le> size_n g"
  shows "\<exists>w. check_for_winner g b = Inr w"
proof -
  have n: "3 \<le> nat (size_n g)" using assms(2) by simp
  have rng: "\<forall>r\<in>set (py_range (size_n g)). 0 \<le> r \<and> r < int (nat (size_n g))"
    by (auto simp: set_py_range)
  obtain wr where wr: "check_rows_for_winner g b = Inr wr"
    unfolding check_rows_for_winner_def
    using check_rows_loop_total[OF assms(1) n rng] by blast
  obtain wc where wc: "check_columns_for_winner g b = Inr wc"
    unfolding check_columns_for_winner_def
    using check_columns_loop_total[OF assms(1) n rng] by blast
  obtain wd where wd: "check_diagonals_for_winner b = Inr wd"
    using check_diagonals_total[OF assms(1) n] by blast
  show ?thesis
    by (simp add: check_for_winner_def wr wc wd split: option.splits)
qed

lemma check_for_winner_raises:
  assumes "wf_board (nat (size_n g)) b" "1 \<le> size_n g" "size_n g < 3"
  shows "check_for_winner g b = Inl IndexError"
proof -
  obtain rs where rs: "py_range (size_n g) = 0 # rs"
    using assms(2) by (cases "nat (size_n g)") (auto simp: py_range_def upt_rec)
  have len: "length b = nat (size_n g)" "length (b ! 0) = nat (size_n g)"
    using assms(1,2) wf_board_row[OF assms(1), of 0] by (simp_all add: wf_board_def)
  have c0: "board_at b 0 0 = Inr (b ! 0 ! 0)"
    using board_at_in_range[OF assms(1), of 0 0] assms(2) by simp
  have c2: "board_at b 0 2 = Inl IndexError"
    using len assms by (simp add: board_at_def py_getitem_in_range py_getitem_beyond)
  have "board_at b 0 1 = Inl IndexError \<or> (\<exists>p. board_at b 0 1 = Inr p)"
    using len assms by (cases "size_n g = 1")
      (simp_all add: board_at_def py_getitem_in_range py_getitem_beyond)
  then have "winning_line_at b (0, 0) (0, 1) (0, 2) = Inl IndexError"
    using c0 c2 by (auto simp: winning_line_at_def)
  then show ?thesis
    by (simp add: check_for_winner_def check_rows_for_winner_def rs)
qed

lemma is_valid_move_wf:
  assumes "wf_state s"
  shows "is_valid_move s c = Inr (move_allowed s c)"
  using assms is_cell_empty_wf[of "grid_size s" "board s" c]
  by (auto simp: is_valid_move_def is_game_in_progress_def move_allowed_def wf_state_def
      is_valid_coordinate_def is_valid_for_grid_def)

lemma place_current_player_move_wf:
  assumes "wf_state s" "move_allowed s c"
  shows "place_current_player_move s c = (Inr (), placed s c)"
proof -
  have "place_move (board s) c (current_player s) =
        Inr ((board s)[nat (row c) := (board s ! nat (row c))[nat (col c) := current_player s]])"
    using assms by (intro place_move_wf[where n="nat (size_n (grid_size s))"])
      (auto simp: wf_state_def move_allowed_def)
  then show ?thesis
    by (simp add: place_current_player_move_def placed_def)
qed

lemma wf_state_placed:
  assumes "wf_state s" "move_allowed s c"
  shows "wf_state (placed s c)"
proof -
  have "nat (row c) < nat (size_n (grid_size s))"
    using assms(2) by (auto simp: move_allowed_def)
  then show ?thesis
    using assms(1) by (simp add: wf_state_def placed_def wf_board_update)
qed

lemma execute_move_wf:
  assumes "wf_state s"
  shows "execute_move s c =
     (if move_allowed s c
      then (case check_for_winner (grid_size s) (board (placed s c)) of
              Inl e \<Rightarrow> (Inl e, placed s c)
            | Inr None \<Rightarrow>
                (Inr True, if no_empty_cell (board (placed s c)) then set_tie_game (placed s c)
                           else switch_current_player (placed s c))
            | Inr (Some w) \<Rightarrow> (Inr True, set_winner_and_end_game (placed s c) w))
      else (Inr False, s))"
proof (cases "move_allowed s c")
  case False
  then show ?thesis by (simp add: execute_move_def is_valid_move_wf[OF assms])
next
  case True
  have wfp: "wf_board (nat (size_n (grid_size (placed s c)))) (board (placed s c))"
    using wf_state_placed[OF assms True] by (simp add: wf_state_def)
  have gs: "grid_size (placed s c) = grid_size s" by (simp add: placed_def)
  have st: "status (placed s c) = IN_PROGRESS"
    using True by (simp add: placed_def move_allowed_def)
  show ?thesis
    using True st
    by (simp add: execute_move_def is_valid_move_wf[OF assms]
        place_current_player_move_wf[OF assms True] check_for_game_completion_def gs
        is_board_full_wf[OF wfp, unfolded gs] switch_to_next_player_if_game_continues_def
        is_game_in_progress_def set_tie_game_def set_winner_and_end_game_def
        split: sum.splits option.splits)
qed

section \<open>Invariants of the reachable states\<close>

lemma attempt_move_state:
  "snd (attempt_move s c) = s \<or> snd (attempt_move s c) = snd (execute_move s c)"
  by (auto simp: attempt_move_def execute_valid_move_def split: sum.splits prod.splits)

lemma reachable_invariant [consumes 1, case_names fresh moved restarted]:
  assumes "reachable s"
    and "\<And>n g. GridSize_init n = Inr g \<Longrightarrow> P (GameState_init (Some g))"
    and "\<And>s c. reachable s \<Longrightarrow> P s \<Longrightarrow> P (snd (execute_move s c))"
    and "\<And>s. reachable s \<Longrightarrow> P s \<Longrightarrow> P (reset_to_initial_state s)"
  shows "P s"
  using assms(1)
proof (induction rule: reachable.induct)
  case (attempted s c)
  then show ?case
    using attempt_move_state[of s c] assms(3)[of s c] by auto
qed (use assms in auto)

lemma GameState_init_fields:
  "GameState_init (Some g) =
   \<lparr>grid_size = g, board = create_empty_board g, current_player = Player_X,
    status = IN_PROGRESS, winner = None, move_history = []\<rparr>"
  by (simp add: GameState_init_def initialize_game_state_def)

lemma reset_to_initial_state_fields:
  "reset_to_initial_state s =
   \<lparr>grid_size = grid_size s, board = create_empty_board (grid_size s), current_player = Player_X,
    status = IN_PROGRESS, winner = None, move_history = []\<rparr>"
  by (cases s) (simp add: reset_to_initial_state_def initialize_game_state_def reset_board_def)

lemma execute_move_outcome [consumes 1, case_names rejected raised won tied continued]:
  assumes "wf_state s"
  obtains
    "\<not> move_allowed s c" "execute_move s c = (Inr False, s)"
  | e where "move_allowed s c" "check_for_winner (grid_size s) (board (placed s c)) = Inl e"
      "execute_move s c = (Inl e, placed s c)"
  | w where "move_allowed s c" "check_for_winner (grid_size s) (board (placed s c)) = Inr (Some w)"
      "execute_move s c = (Inr True, set_winner_and_end_game (placed s c) w)"
  | "move_allowed s c" "check_for_winner (grid_size s) (board (placed s c)) = Inr None"
      "no_empty_cell (board (placed s c))"
      "execute_move s c = (Inr True, set_tie_game (placed s c))"
  | "move_allowed s c" "check_for_winner (grid_size s) (board (placed s c)) = Inr None"
      "\<not> no_empty_cell (board (placed s c))"
      "execute_move s c = (Inr True, switch_current_player (placed s c))"
  using execute_move_wf[OF assms, of c]
  by (auto split: sum.splits option.splits if_splits)

lemma wf_state_execute_move:
  assumes "wf_state s"
  shows "wf_state (snd (execute_move s c))"
  using assms
proof (cases rule: execute_move_outcome[where c=c])
  case rejected
  then show ?thesis using assms by simp
qed (use wf_state_placed[OF assms] in
     \<open>auto simp: wf_state_def set_winner_and_end_game_def set_tie_game_def switch_current_player_def\<close>)

lemma reachable_wf: "reachable s \<Longrightarrow> wf_state s"
proof (induction rule: reachable_invariant)
  case (fresh n g)
  then show ?case
    by (auto simp: GameState_init_fields wf_state_def wf_board_empty GridSize_init_def
        split: if_splits)
next
  case (moved s c)
  then show ?case by (simp add: wf_state_execute_move)
next
  case (restarted s)
  then show ?case
    by (simp add: reset_to_initial_state_fields wf_state_def wf_board_empty)
qed

lemma reachable_current_player: "reachable s \<Longrightarrow> current_player s \<noteq> Player_NONE"
proof (induction rule: reachable_invariant)
  case (fresh n g)
  then show ?case by (simp add: GameState_init_fields)
next
  case (moved s c)
  from reachable_wf[OF moved(1)] show ?case
    by (cases rule: execute_move_outcome[where c=c])
      (use moved(2) in \<open>auto simp: placed_def set_winner_and_end_game_def set_tie_game_def
         switch_current_player_def\<close>)
next
  case (restarted s)
  then show ?case by (simp add: reset_to_initial_state_fields)
qed

lemma placed_count:
  assumes "wf_state s" "move_allowed s c" "current_player s \<noteq> Player_NONE"
  shows "count_occupied (board (placed s c)) = Suc (count_occupied (board s))"
proof -
  let ?n = "nat (size_n (grid_size s))"
  have r: "nat (row c) < ?n" and k: "nat (col c) < ?n"
    using assms(2) by (auto simp: move_allowed_def)
  have wfb: "wf_board ?n (board s)" using assms(1) by (simp add: wf_state_def)
  then have "nat (row c) < length (board s)" using r by (simp add: wf_board_def)
  moreover have "nat (col c) < length (board s ! nat (row c))"
    using wf_board_row[OF wfb r] k by simp
  moreover have "board s ! nat (row c) ! nat (col c) = Player_NONE"
    using assms(2) by (simp add: move_allowed_def)
  ultimately show ?thesis
    using assms(3) by (simp add: placed_def count_occupied_update)
qed

lemma reachable_log_cardinality:
  "reachable s \<Longrightarrow> length (move_history s) = count_occupied (board s)"
proof (induction rule: reachable_invariant)
  case (fresh n g)
  then show ?case by (simp add: GameState_init_fields count_occupied_empty)
next
  case (moved s c)
  note wf = reachable_wf[OF moved(1)] and cp = reachable_current_player[OF moved(1)]
  have step: "length (move_history (placed s c)) = count_occupied (board (placed s c))"
    if "move_allowed s c"
    using placed_count[OF wf that cp] moved(2) by (simp add: placed_def)
  from wf show ?case
    by (cases rule: execute_move_outcome[where c=c])
      (use step moved(2) in
        \<open>auto simp: set_winner_and_end_game_def set_tie_game_def switch_current_player_def\<close>)
next
  case (restarted s)
  then show ?case by (simp add: reset_to_initial_state_fields count_occupied_empty)
qed

lemma reachable_tie:
  "reachable s \<Longrightarrow> status s = TIE \<Longrightarrow>
   no_empty_cell (board s) \<and> check_for_winner (grid_size s) (board s) = Inr None"
proof (induction rule: reachable_invariant)
  case (fresh n g)
  then show ?case by (simp add: GameState_init_fields)
next
  case (moved s c)
  from reachable_wf[OF moved(1)] show ?case
    by (cases rule: execute_move_outcome[where c=c])
      (use moved(2,3) in \<open>auto simp: placed_def set_winner_and_end_game_def set_tie_game_def
        switch_current_player_def move_allowed_def split: if_splits\<close>)
next
  case (restarted s)
  then show ?case by (simp add: reset_to_initial_state_fields)
qed

section \<open>Single moves and sequences of moves\<close>

lemma execute_move_True:
  assumes "execute_move s c = (Inr True, s')"
  shows "status s = IN_PROGRESS"
    and "move_history s' = move_history s @ [\<lparr>coordinate = c, player = current_player s\<rparr>]"
    and "current_player s' =
           (if status s' = IN_PROGRESS
            then (if current_player s = Player_X then Player_O else Player_X)
            else current_player s)"
  using assms
  by (auto simp: execute_move_def is_valid_move_def is_game_in_progress_def
      place_current_player_move_def check_for_game_completion_def
      switch_to_next_player_if_game_continues_def switch_current_player_def
      set_winner_and_end_game_def set_tie_game_def Let_def
      split: sum.splits if_splits option.splits prod.splits)

lemma execute_move_terminal:
  "status s \<noteq> IN_PROGRESS \<Longrightarrow> execute_move s c = (Inr False, s)"
  by (simp add: execute_move_def is_valid_move_def is_game_in_progress_def)

lemma attempt_move_terminal:
  "status s \<noteq> IN_PROGRESS \<Longrightarrow> attempt_move s c = (Inr (False, ''Game is already finished''), s)"
  by (simp add: attempt_move_def is_game_already_finished_def)

lemma execute_move_False:
  "fst (execute_move s c) = Inr False \<Longrightarrow> snd (execute_move s c) = s"
  by (auto simp: execute_move_def split: sum.splits if_splits prod.splits)

lemma attempt_move_False:
  "fst (attempt_move s c) = Inr (False, msg) \<Longrightarrow> snd (attempt_move s c) = s"
  using execute_move_False[of s c]
  by (auto simp: attempt_move_def execute_valid_move_def split: sum.splits if_splits prod.splits)

lemma mover_Suc: "mover (Suc k) = (if mover k = Player_X then Player_O else Player_X)"
  by (simp add: mover_def)

lemma run_moves_alternation:
  assumes "run_moves s cs = Some s'"
    and "status s = IN_PROGRESS" "current_player s = mover k"
    and "map player (move_history s) = map mover [0..<k]" "length (move_history s) = k"
  shows "map player (move_history s') = map mover [0..<k + length cs] \<and>
         map coordinate (move_history s') = map coordinate (move_history s) @ cs \<and>
         current_player s' =
           (if status s' = IN_PROGRESS then mover (k + length cs) else mover (k + length cs - 1))"
  using assms
proof (induction cs arbitrary: s k)
  case Nil
  then show ?case by simp
next
  case (Cons c cs)
  from Cons.prems(1) obtain s1 where s1: "execute_move s c = (Inr True, s1)"
    and rest: "run_moves s1 cs = Some s'"
    by (auto split: sum.splits prod.splits if_splits)
  note em = execute_move_True[OF s1]
  have hist: "map player (move_history s1) = map mover [0..<Suc k]" "length (move_history s1) = Suc k"
    using em(2) Cons.prems by simp_all
  show ?case
  proof (cases "status s1 = IN_PROGRESS")
    case True
    then have "current_player s1 = mover (Suc k)"
      using em(3) Cons.prems(3) by (simp add: mover_Suc)
    from Cons.IH[OF rest True this hist] em(2) show ?thesis by simp
  next
    case False
    then have "cs = []" using rest execute_move_terminal[OF False]
      by (cases cs) auto
    with rest have "s' = s1" by simp
    with False em Cons.prems \<open>cs = []\<close> show ?thesis by simp
  qed
qed

lemma GameState_init_None: "GameState_init None = GameState_init (Some GridSize_default)"
  by (simp add: GameState_init_def)

lemma run_moves_fresh:
  assumes "run_moves (GameState_init go) cs = Some s'"
  shows "map player (move_history s') = map mover [0..<length cs] \<and>
         map coordinate (move_history s') = cs \<and>
         current_player s' =
           (if status s' = IN_PROGRESS then mover (length cs) else mover (length cs - 1))"
proof -
  obtain g where g: "GameState_init go = GameState_init (Some g)"
    by (cases go) (auto simp: GameState_init_None)
  show ?thesis
    using run_moves_alternation[OF assms, of 0]
    by (simp add: g GameState_init_fields mover_def)
qed

lemma run_moves_reachable:
  "reachable s \<Longrightarrow> run_moves s cs = Some s' \<Longrightarrow> reachable s'"
proof (induction cs arbitrary: s)
  case Nil
  then show ?case by simp
next
  case (Cons c cs)
  from Cons.prems(2) obtain s1 where s1: "execute_move s c = (Inr True, s1)"
    and rest: "run_moves s1 cs = Some s'"
    by (auto split: sum.splits prod.splits if_splits)
  have "reachable s1" using reachable.moved[OF Cons.prems(1), of c] s1 by simp
  from Cons.IH[OF this rest] show ?case .
qed

lemma execute_move_total_from_3:
  assumes "reachable s" "3 \<le> size_n (grid_size s)"
  shows "\<exists>ok. fst (execute_move s c) = Inr ok"
proof -
  note wf = reachable_wf[OF assms(1)]
  from wf show ?thesis
  proof (cases rule: execute_move_outcome[where c=c])
    case (raised e)
    have "wf_state (placed s c)" using wf_state_placed[OF wf raised(1)] .
    then have "\<exists>w. check_for_winner (grid_size s) (board (placed s c)) = Inr w"
      using check_for_winner_total[of "grid_size s" "board (placed s c)"] assms(2)
      by (simp add: wf_state_def placed_def)
    with raised(2) show ?thesis by simp
  qed auto
qed

lemma attempt_move_total_from_3:
  assumes "reachable s" "3 \<le> size_n (grid_size s)"
  shows "\<exists>r. fst (attempt_move s c) = Inr r"
  using execute_move_total_from_3[OF assms, of c] is_valid_move_wf[OF reachable_wf[OF assms(1)], of c]
  by (auto simp: attempt_move_def execute_valid_move_def is_move_valid_def
      split: sum.splits prod.splits)

lemma execute_move_raises_below_3:
  assumes "reachable s" "size_n (grid_size s) < 3" "move_allowed s c"
  shows "execute_move s c = (Inl IndexError, placed s c)"
proof -
  note wf = reachable_wf[OF assms(1)]
  have "wf_state (placed s c)" using wf_state_placed[OF wf assms(3)] .
  then have "check_for_winner (grid_size s) (board (placed s c)) = Inl IndexError"
    using check_for_winner_raises[of "grid_size s" "board (placed s c)"] assms(2)
    by (simp add: wf_state_def placed_def)
  then show ?thesis
    by (simp add: execute_move_wf[OF wf] assms(3))
qed

lemma grid_size_reachable_range:
  "reachable s \<Longrightarrow> 1 \<le> size_n (grid_size s) \<and> size_n (grid_size s) \<le> 10"
  by (drule reachable_wf) (simp add: wf_state_def)

section \<open>The concrete games\<close>

lemma GridSize_init_3: "GridSize_init 3 = Inr GridSize_default"
  by (simp add: GridSize_init_def GridSize_default_def)

lemma reachable_default: "reachable (GameState_init None)"
  using reachable.fresh[OF GridSize_init_3] by (simp add: GameState_init_None)

lemma run_scenario_A: "run_moves (GameState_init None) scenario_A = Some state_after_A"
  by code_simp

lemma run_game_win_on_last_cell:
  "run_moves (GameState_init None) game_win_on_last_cell = Some state_after_last_cell"
  by code_simp

lemma run_game_4x4_before_last:
  "run_moves (GameState_init (Some \<lparr>size_n = 4\<rparr>)) (butlast game_4x4) = Some state_4x4_before_last"
  by code_simp

lemma execute_move_4x4_last:
  "execute_move state_4x4_before_last (at 3 0) = (Inr True, state_4x4_final)"
  by code_simp

lemma run_game_4x4:
  "run_moves (GameState_init (Some \<lparr>size_n = 4\<rparr>)) game_4x4 = Some state_4x4_final"
  by code_simp

lemma run_scenario_B:
  "map_option (\<lambda>s. (status s, winner s, length (move_history s), no_empty_cell (board s)))
     (run_moves (GameState_init None) scenario_B) = Some (TIE, None, 9, True)"
  by code_simp

lemma execute_move_centre:
  "execute_move (GameState_init None) (at 1 1) = (Inr True, state_after_centre)"
  by code_simp

lemma reachable_state_after_A: "reachable state_after_A"
  using run_moves_reachable[OF reachable_default run_scenario_A] .

lemma reachable_state_after_centre: "reachable state_after_centre"
  using reachable.moved[OF reachable_default, of "at 1 1"] by (simp add: execute_move_centre)

lemma tie_no_complete_line_3x3:
  assumes "reachable s" "size_n (grid_size s) = 3" "status s = TIE"
  shows "no_empty_cell (board s) \<and> (\<forall>p. \<not> has_complete_line 3 (board s) p)"
proof -
  have g: "grid_size s = \<lparr>size_n = 3\<rparr>" using assms(2) by (cases "grid_size s") simp
  have wf: "wf_board 3 (board s)"
    using reachable_wf[OF assms(1)] assms(2) by (simp add: wf_state_def)
  from reachable_tie[OF assms(1,3)] have "no_empty_cell (board s)"
    and "check_for_winner \<lparr>size_n = 3\<rparr> (board s) = Inr None" by (simp_all add: g)
  then show ?thesis
    using check_for_winner_3[OF wf] spec_checkWinner_None[of 3 "board s"] by simp
qed

lemma win_takes_precedence:
  assumes "reachable s" "execute_move s c = (Inr True, s')"
    and "check_for_winner (grid_size s') (board s') = Inr (Some w)"
  shows "status s' = (if w = Player_X then X_WINS else O_WINS) \<and> winner s' = Some w"
  using reachable_wf[OF assms(1)]
proof (cases rule: execute_move_outcome[where c=c])
  case (won w')
  then show ?thesis using assms(2,3)
    by (auto simp: set_winner_and_end_game_def placed_def)
qed (use assms(2,3) in \<open>auto simp: set_tie_game_def switch_current_player_def placed_def\<close>)

section \<open>Properties of the specification\<close>

text \<open>
  C1, as amended. On a 3 by 3 board (the default grid size) \<open>check_for_winner\<close> never
  raises and returns what the specification's scan returns: the owner of the first
  complete line in the order rows, columns, main diagonal, anti-diagonal. So it returns
  none exactly when no complete line exists, a player it returns owns a complete line
  and is not \<open>NONE\<close>, and a player who alone owns complete lines is the one returned.
\<close>

theorem check_for_winner_3x3:
  assumes "wf_board 3 b"
  shows "check_for_winner \<lparr>size_n = 3\<rparr> b = Inr (spec_checkWinner 3 b) \<and>
         (check_for_winner \<lparr>size_n = 3\<rparr> b = Inr None \<longleftrightarrow> (\<forall>p. \<not> has_complete_line 3 b p)) \<and>
         (\<forall>p. check_for_winner \<lparr>size_n = 3\<rparr> b = Inr (Some p) \<longrightarrow>
                p \<noteq> Player_NONE \<and> has_complete_line 3 b p) \<and>
         (\<forall>p. has_complete_line 3 b p \<and> (\<forall>q. has_complete_line 3 b q \<longrightarrow> q = p) \<longrightarrow>
                check_for_winner \<lparr>size_n = 3\<rparr> b = Inr (Some p))"
proof -
  let ?w = "check_for_winner \<lparr>size_n = 3\<rparr> b"
  have eq: "?w = Inr (spec_checkWinner 3 b)" by (rule check_for_winner_3[OF assms])
  have none: "?w = Inr None \<longleftrightarrow> (\<forall>p. \<not> has_complete_line 3 b p)"
    using spec_checkWinner_None[of 3 b] by (simp add: eq)
  have some: "p \<noteq> Player_NONE \<and> has_complete_line 3 b p" if "?w = Inr (Some p)" for p
    using that spec_checkWinner_Some[of 3 b p] check_for_winner_owner[OF that] by (simp add: eq)
  have only: "?w = Inr (Some p)"
    if "has_complete_line 3 b p" "\<forall>q. has_complete_line 3 b q \<longrightarrow> q = p" for p
  proof (cases "spec_checkWinner 3 b")
    case None
    then show ?thesis using none that(1) by (simp add: eq)
  next
    case (Some q)
    then have "has_complete_line 3 b q" by (rule spec_checkWinner_Some)
    with that(2) Some show ?thesis by (simp add: eq)
  qed
  show ?thesis using eq none some only by blast
qed

text \<open>
  A witness for C1 as amended: a 3 by 3 board on which X owns the main diagonal and
  nobody else owns a line.
\<close>

theorem check_for_winner_3x3_witness:
  "wf_board 3 [[Player_X, Player_O, Player_O],
               [Player_NONE, Player_X, Player_NONE],
               [Player_O, Player_NONE, Player_X]] \<and>
   check_for_winner \<lparr>size_n = 3\<rparr> [[Player_X, Player_O, Player_O],
               [Player_NONE, Player_X, Player_NONE],
               [Player_O, Player_NONE, Player_X]] = Inr (Some Player_X) \<and>
   has_complete_line 3 [[Player_X, Player_O, Player_O],
               [Player_NONE, Player_X, Player_NONE],
               [Player_O, Player_NONE, Player_X]] Player_X \<and>
   spec_checkWinner 3 [[Player_X, Player_O, Player_O],
               [Player_NONE, Player_X, Player_NONE],
               [Player_O, Player_NONE, Player_X]] = Some Player_X"
proof -
  let ?b = "[[Player_X, Player_O, Player_O],
             [Player_NONE, Player_X, Player_NONE],
             [Player_O, Player_NONE, Player_X]]"
  have wf: "wf_board 3 ?b" by code_simp
  have ev: "check_for_winner \<lparr>size_n = 3\<rparr> ?b = Inr (Some Player_X)" by code_simp
  from check_for_winner_3x3[OF wf] ev wf show ?thesis by simp
qed

text \<open>
  C1 as stated fails. On the 3 by 3 board \<open>board_two_lines\<close> O owns a complete row, yet
  the player returned is X, whose row is scanned first. On the 4 by 4 board
  \<open>board_three_of_four\<close> X is returned although no line of four cells is complete: only
  the cells at indices 0, 1 and 2 of a line are compared.
\<close>

theorem check_for_winner_line_iff_counterexample:
  "wf_board 3 board_two_lines \<and>
   check_for_winner \<lparr>size_n = 3\<rparr> board_two_lines = Inr (Some Player_X) \<and>
   has_complete_line 3 board_two_lines Player_O \<and>
   wf_board 4 board_three_of_four \<and>
   check_for_winner \<lparr>size_n = 4\<rparr> board_three_of_four = Inr (Some Player_X) \<and>
   \<not> has_complete_line 4 board_three_of_four Player_X"
  by code_simp

text \<open>
  C2 fails on the code. Grid size 1 is accepted by \<open>GridSize\<close> and (0, 0) is a coordinate
  inside that grid, but the first move of a 1 by 1 game raises \<open>IndexError\<close>, from
  \<open>execute_move\<close> and from \<open>attempt_move\<close> alike: the win checker reads \<open>board[0][1]\<close>.
  The symbol is already placed and logged when the exception leaves the call.
\<close>

theorem execute_move_raises_on_1x1:
  "GridSize_init 1 = Inr \<lparr>size_n = 1\<rparr> \<and>
   GridCoordinate_init 0 0 = Inr (at 0 0) \<and>
   is_valid_coordinate \<lparr>size_n = 1\<rparr> (at 0 0) \<and>
   execute_move (GameState_init (Some \<lparr>size_n = 1\<rparr>)) (at 0 0) =
     (Inl IndexError,
      \<lparr>grid_size = \<lparr>size_n = 1\<rparr>, board = [[Player_X]], current_player = Player_X,
       status = IN_PROGRESS, winner = None,
       move_history = [\<lparr>coordinate = at 0 0, player = Player_X\<rparr>]\<rparr>) \<and>
   fst (attempt_move (GameState_init (Some \<lparr>size_n = 1\<rparr>)) (at 0 0)) = Inl IndexError"
  by code_simp

text \<open>
  C3 fails on the code. On a 4 by 4 grid the sixteen moves of \<open>game_4x4\<close> are all
  executed successfully. Before the last of them one cell is empty and nobody owns a
  complete line; the last move, by O at (3, 0), fills that cell and completes O's
  anti-diagonal. The resulting status is \<open>TIE\<close>, with no winner recorded, although O
  owns a complete line of the final board.
\<close>

theorem tie_with_complete_line_4x4:
  "GridSize_init 4 = Inr \<lparr>size_n = 4\<rparr> \<and>
   run_moves (GameState_init (Some \<lparr>size_n = 4\<rparr>)) (butlast game_4x4) = Some state_4x4_before_last \<and>
   count_occupied (board state_4x4_before_last) = 15 \<and>
   \<not> has_complete_line 4 (board state_4x4_before_last) Player_X \<and>
   \<not> has_complete_line 4 (board state_4x4_before_last) Player_O \<and>
   execute_move state_4x4_before_last (at 3 0) = (Inr True, state_4x4_final) \<and>
   reachable state_4x4_final \<and>
   status state_4x4_final = TIE \<and>
   winner state_4x4_final = None \<and>
   no_empty_cell (board state_4x4_final) \<and>
   line_owned (board state_4x4_final) Player_O (anti_diagonal_cells 4) \<and>
   has_complete_line 4 (board state_4x4_final) Player_O"
proof -
  have g: "GridSize_init 4 = Inr \<lparr>size_n = 4\<rparr>" by (simp add: GridSize_init_def)
  have r: "reachable state_4x4_final"
    using run_moves_reachable[OF reachable.fresh[OF g] run_game_4x4] .
  have st: "status state_4x4_final = TIE" "winner state_4x4_final = None"
    by (simp_all add: state_4x4_final_def)
  have before: "count_occupied (board state_4x4_before_last) = 15"
    "\<not> has_complete_line 4 (board state_4x4_before_last) Player_X"
    "\<not> has_complete_line 4 (board state_4x4_before_last) Player_O"
    by code_simp+
  have after: "no_empty_cell (board state_4x4_final)"
    "line_owned (board state_4x4_final) Player_O (anti_diagonal_cells 4)"
    "has_complete_line 4 (board state_4x4_final) Player_O"
    by code_simp+
  show ?thesis
    using g run_game_4x4_before_last execute_move_4x4_last r st before after by blast
qed

text \<open>
  C4. A move attempt on a reachable state that is made after the game has ended, or at
  a coordinate outside the grid, or at an occupied cell, is rejected: \<open>execute_move\<close>
  returns \<open>False\<close>, \<open>attempt_move\<close> returns \<open>accepted = False\<close> with its message, and
  the state after the call is the state before it. Conversely, whenever either call
  returns \<open>False\<close>, the state is unchanged.
\<close>

theorem rejected_move_unchanged:
  assumes "reachable s"
  shows "(status s \<noteq> IN_PROGRESS \<or>
          \<not> (0 \<le> row c \<and> row c < size_n (grid_size s) \<and> 0 \<le> col c \<and> col c < size_n (grid_size s)) \<or>
          board s ! nat (row c) ! nat (col c) \<noteq> Player_NONE
          \<longrightarrow> execute_move s c = (Inr False, s) \<and>
              attempt_move s c =
                (Inr (False, if status s \<noteq> IN_PROGRESS then ''Game is already finished''
                             else ''Invalid move: cell is occupied or out of bounds''), s)) \<and>
         (fst (execute_move s c') = Inr False \<longrightarrow> snd (execute_move s c') = s) \<and>
         (fst (attempt_move s c'') = Inr (False, msg) \<longrightarrow> snd (attempt_move s c'') = s)"
proof -
  note wf = reachable_wf[OF assms]
  have "execute_move s c = (Inr False, s) \<and>
        attempt_move s c =
          (Inr (False, if status s \<noteq> IN_PROGRESS then ''Game is already finished''
                       else ''Invalid move: cell is occupied or out of bounds''), s)"
    if "\<not> move_allowed s c"
    using that
    by (simp add: execute_move_wf[OF wf] attempt_move_def is_game_already_finished_def
        is_move_valid_def is_valid_move_wf[OF wf])
  then show ?thesis
    using execute_move_False[of s c'] attempt_move_False[of s c'' msg]
    by (auto simp: move_allowed_def)
qed

text \<open>A witness for C4: X has taken the centre, and the centre is asked for again.\<close>

theorem rejected_move_unchanged_witness:
  "reachable state_after_centre \<and>
   board state_after_centre ! nat (row (at 1 1)) ! nat (col (at 1 1)) \<noteq> Player_NONE \<and>
   execute_move state_after_centre (at 1 1) = (Inr False, state_after_centre) \<and>
   attempt_move state_after_centre (at 1 1) =
     (Inr (False, ''Invalid move: cell is occupied or out of bounds''), state_after_centre) \<and>
   fst (execute_move state_after_centre (at 1 1)) = Inr False \<and>
   snd (execute_move state_after_centre (at 1 1)) = state_after_centre \<and>
   fst (attempt_move state_after_centre (at 1 1)) =
     Inr (False, ''Invalid move: cell is occupied or out of bounds'') \<and>
   snd (attempt_move state_after_centre (at 1 1)) = state_after_centre"
proof -
  have occ: "board state_after_centre ! nat (row (at 1 1)) ! nat (col (at 1 1)) \<noteq> Player_NONE"
    by (simp add: state_after_centre_def at_def)
  have st: "status state_after_centre = IN_PROGRESS"
    by (simp add: state_after_centre_def)
  from rejected_move_unchanged[OF reachable_state_after_centre, of "at 1 1" "at 1 1" "at 1 1"
      "''Invalid move: cell is occupied or out of bounds''"] occ st
  show ?thesis using reachable_state_after_centre by simp
qed

text \<open>
  C5. In a sequence of successfully executed moves of a new game the movers are
  X, O, X, ... in strict alternation, and while the game is in progress the current
  player is the next mover. A successful move switches the current player exactly when
  the game is still in progress after it; a move that ends the game leaves the current
  player as it was. Once the status is terminal, neither \<open>execute_move\<close> nor
  \<open>attempt_move\<close> changes the state, the current player included.
\<close>

theorem turn_alternation:
  "(run_moves (GameState_init go) cs = Some s' \<longrightarrow>
      map player (move_history s') = map mover [0..<length cs] \<and>
      map coordinate (move_history s') = cs \<and>
      current_player s' =
        (if status s' = IN_PROGRESS then mover (length cs) else mover (length cs - 1))) \<and>
   (execute_move s1 c1 = (Inr True, t) \<longrightarrow>
      status s1 = IN_PROGRESS \<and>
      move_history t = move_history s1 @ [\<lparr>coordinate = c1, player = current_player s1\<rparr>] \<and>
      current_player t =
        (if status t = IN_PROGRESS
         then (if current_player s1 = Player_X then Player_O else Player_X)
         else current_player s1)) \<and>
   (status s2 \<noteq> IN_PROGRESS \<longrightarrow>
      snd (execute_move s2 c2) = s2 \<and> snd (attempt_move s2 c2) = s2)"
  using run_moves_fresh[of go cs s'] execute_move_True[of s1 c1 t]
    execute_move_terminal[of s2 c2] attempt_move_terminal[of s2 c2]
  by simp

text \<open>
  A witness for C5: Scenario A (X wins with the fifth move), the first move of a game,
  and a move attempted after Scenario A.
\<close>

theorem turn_alternation_witness:
  "run_moves (GameState_init None) scenario_A = Some state_after_A \<and>
   map player (move_history state_after_A) = [Player_X, Player_O, Player_X, Player_O, Player_X] \<and>
   status state_after_A = X_WINS \<and>
   current_player state_after_A = Player_X \<and>
   execute_move (GameState_init None) (at 1 1) = (Inr True, state_after_centre) \<and>
   current_player (GameState_init None) = Player_X \<and>
   status state_after_centre = IN_PROGRESS \<and>
   current_player state_after_centre = Player_O \<and>
   snd (execute_move state_after_A (at 2 2)) = state_after_A \<and>
   snd (attempt_move state_after_A (at 2 2)) = state_after_A"
proof -
  have a: "status state_after_A = X_WINS" "current_player state_after_A = Player_X"
    "status state_after_A \<noteq> IN_PROGRESS"
    by (simp_all add: state_after_A_def)
  have b: "status state_after_centre = IN_PROGRESS" "current_player state_after_centre = Player_O"
    by (simp_all add: state_after_centre_def)
  have c: "current_player (GameState_init None) = Player_X"
    by (simp add: GameState_init_None GameState_init_fields)
  have d: "map player (move_history state_after_A) =
           [Player_X, Player_O, Player_X, Player_O, Player_X]"
    by code_simp
  from turn_alternation[of None scenario_A state_after_A "GameState_init None" "at 1 1"
      state_after_centre state_after_A "at 2 2"]
  show ?thesis
    using run_scenario_A execute_move_centre a b c d by simp
qed

text \<open>
  C6. On every reachable state and for every coordinate, \<open>is_valid_move\<close> returns (it
  does not raise) and its value is true exactly when the status is \<open>IN_PROGRESS\<close>, the
  coordinate is inside the grid, and the cell at the coordinate is \<open>NONE\<close>.
\<close>

theorem is_valid_move_contract:
  assumes "reachable s"
  shows "is_valid_move s c =
         Inr (status s = IN_PROGRESS \<and>
              (0 \<le> row c \<and> row c < size_n (grid_size s) \<and>
               0 \<le> col c \<and> col c < size_n (grid_size s)) \<and>
              board s ! nat (row c) ! nat (col c) = Player_NONE)"
  using is_valid_move_wf[OF reachable_wf[OF assms], of c]
  by (simp add: move_allowed_def)

text \<open>A witness for C6: after X has taken the centre, the corner (0, 2) is a valid move.\<close>

theorem is_valid_move_contract_witness:
  "reachable state_after_centre \<and> is_valid_move state_after_centre (at 0 2) = Inr True \<and>
   is_valid_move state_after_centre (at 1 1) = Inr False \<and>
   is_valid_move state_after_centre (at 0 3) = Inr False"
  using is_valid_move_contract[OF reachable_state_after_centre, of "at 0 2"]
    is_valid_move_contract[OF reachable_state_after_centre, of "at 1 1"]
    is_valid_move_contract[OF reachable_state_after_centre, of "at 0 3"]
    reachable_state_after_centre
  by (simp add: state_after_centre_def at_def GridSize_default_def)

text \<open>
  C7. Whatever the state before (in progress or terminal), after
  \<open>reset_to_initial_state\<close>, and so after \<open>start_new_game\<close>, every cell of the board is
  \<open>NONE\<close>, the move log is empty, the current player is X, the status is \<open>IN_PROGRESS\<close>
  and there is no winner; the grid size is kept.
\<close>

theorem full_reset_law:
  "board (reset_to_initial_state s) =
     replicate (nat (size_n (grid_size s))) (replicate (nat (size_n (grid_size s))) Player_NONE) \<and>
   count_occupied (board (reset_to_initial_state s)) = 0 \<and>
   move_history (reset_to_initial_state s) = [] \<and>
   current_player (reset_to_initial_state s) = Player_X \<and>
   status (reset_to_initial_state s) = IN_PROGRESS \<and>
   winner (reset_to_initial_state s) = None \<and>
   grid_size (reset_to_initial_state s) = grid_size s \<and>
   fst (start_new_game svc) = reset_to_initial_state (game_state svc) \<and>
   game_state (snd (start_new_game svc)) = reset_to_initial_state (game_state svc)"
  by (simp add: reset_to_initial_state_fields create_empty_board_replicate[symmetric]
      count_occupied_empty start_new_game_def Let_def)

text \<open>
  C8. In every reachable state the length of the move log equals the number of board
  cells that are not \<open>NONE\<close>.
\<close>

theorem log_cardinality:
  assumes "reachable s"
  shows "length (move_history s) = count_occupied (board s)"
  using assms by (rule reachable_log_cardinality)

text \<open>A witness for C8: the state after Scenario A, five moves and five occupied cells.\<close>

theorem log_cardinality_witness:
  "reachable state_after_A \<and> length (move_history state_after_A) = 5 \<and>
   count_occupied (board state_after_A) = 5"
proof -
  have "length (move_history state_after_A) = 5" by code_simp
  with log_cardinality[OF reachable_state_after_A] reachable_state_after_A
  show ?thesis by simp
qed

text \<open>
  C9. \<open>GridCoordinate\<close> with a negative row or column raises \<open>ValueError\<close>; \<open>GridSize\<close>
  with a size of at most 0 or above 10 raises \<open>ValueError\<close>; \<open>GridSize(10)\<close> succeeds.
  No constructor clamps: a constructor that succeeds stores exactly the values given.
\<close>

theorem constructors_reject_out_of_range:
  "(r < 0 \<or> c < 0 \<longrightarrow>
      GridCoordinate_init r c = Inl (ValueError ''Grid coordinates must be non-negative'')) \<and>
   (n \<le> 0 \<longrightarrow> GridSize_init n = Inl (ValueError ''Grid size must be positive'')) \<and>
   (10 < m \<longrightarrow> GridSize_init m = Inl (ValueError ''Grid size too large (maximum 10)'')) \<and>
   GridSize_init 10 = Inr \<lparr>size_n = 10\<rparr> \<and>
   (GridCoordinate_init r' c' = Inr gc \<longrightarrow> row gc = r' \<and> col gc = c') \<and>
   (GridSize_init k = Inr gs \<longrightarrow> size_n gs = k) \<and>
   (ScreenPosition_init x y = Inr sp \<longrightarrow> pos_x sp = x \<and> pos_y sp = y) \<and>
   (Dimensions_init w h = Inr d \<longrightarrow> width d = w \<and> height d = h)"
  by (auto simp: GridCoordinate_init_def GridSize_init_def ScreenPosition_init_def
      Dimensions_init_def split: if_splits)

text \<open>A witness for C9, with the values of Scenario E among its inputs.\<close>

theorem constructors_reject_out_of_range_witness:
  "GridCoordinate_init (- 1) 0 = Inl (ValueError ''Grid coordinates must be non-negative'') \<and>
   GridSize_init 0 = Inl (ValueError ''Grid size must be positive'') \<and>
   GridSize_init 11 = Inl (ValueError ''Grid size too large (maximum 10)'') \<and>
   GridSize_init 10 = Inr \<lparr>size_n = 10\<rparr> \<and>
   GridCoordinate_init 2 1 = Inr (at 2 1) \<and> row (at 2 1) = 2 \<and> col (at 2 1) = 1 \<and>
   GridSize_init 4 = Inr \<lparr>size_n = 4\<rparr> \<and>
   ScreenPosition_init 100 100 = Inr \<lparr>pos_x = 100, pos_y = 100\<rparr> \<and>
   Dimensions_init 600 600 = Inr \<lparr>width = 600, height = 600\<rparr>"
  using constructors_reject_out_of_range[of "- 1" 0 0 11 2 1 "at 2 1" 4 "\<lparr>size_n = 4\<rparr>"
      100 100 "\<lparr>pos_x = 100, pos_y = 100\<rparr>" 600 600 "\<lparr>width = 600, height = 600\<rparr>"]
  by (simp add: GridCoordinate_init_def GridSize_init_def ScreenPosition_init_def
      Dimensions_init_def at_def)

text \<open>
  C10. \<open>can_restart\<close> is true exactly when the status is terminal, and \<open>start_new_game\<close>
  does not depend on it: in every state, in progress or not, it returns and installs
  the state of a newly constructed game of the same grid size.
\<close>

theorem start_new_game_unconditional:
  "can_restart svc = (status (game_state svc) \<noteq> IN_PROGRESS) \<and>
   fst (start_new_game svc) = GameState_init (Some (grid_size (game_state svc))) \<and>
   game_state (snd (start_new_game svc)) = GameState_init (Some (grid_size (game_state svc)))"
  by (simp add: can_restart_def is_game_over_def start_new_game_def Let_def
      reset_to_initial_state_fields GameState_init_fields)

text \<open>
  An instance of C10: a game in progress, in which X has taken the centre, cannot be
  restarted according to \<open>can_restart\<close>, and \<open>start_new_game\<close> discards it all the same.
\<close>

theorem start_new_game_unconditional_witness:
  "\<not> can_restart \<lparr>game_state = state_after_centre\<rparr> \<and>
   move_history state_after_centre \<noteq> [] \<and>
   fst (start_new_game \<lparr>game_state = state_after_centre\<rparr>) = GameState_init None \<and>
   move_history (fst (start_new_game \<lparr>game_state = state_after_centre\<rparr>)) = []"
  using start_new_game_unconditional[of "\<lparr>game_state = state_after_centre\<rparr>"]
  by (simp add: state_after_centre_def GameState_init_None GameState_init_fields)

end
